theory Spec2Isabelle
  imports Complex_Main
begin

section \<open>Context Rot Monitor: the drift detection engine\<close>

text \<open>
  A shallow embedding of \<^verbatim>\<open>backend/drift_engine.py\<close> and of the engine handling in
  \<^verbatim>\<open>backend/main.py\<close>.

  Python's \<^verbatim>\<open>str\<close> is modelled as \<^typ>\<open>string\<close>, read as a sequence of code points
  in the range 0..255; Python's \<^verbatim>\<open>int\<close> is \<^typ>\<open>int\<close>; a \<^verbatim>\<open>float\<close> is modelled as a
  \<^typ>\<open>real\<close>, so rounding is not part of the model. An exception is a value of the type
  \<open>error\<close>; a method that mutates \<^verbatim>\<open>self\<close> takes the engine and returns it updated, also
  when it raises, since the mutations made before a \<^verbatim>\<open>raise\<close> stay in place.
\<close>

subsection \<open>Data\<close>

datatype error = ValueError | ZeroDivisionError

record ConversationTurn =
  turn_number :: int
  user_message :: string
  assistant_response :: string
  timestamp :: int

record DriftMetrics =
  turn_number :: int
  similarity_score :: real
  is_drifting :: bool
  last_good_turn :: int
  drift_reason :: "string option"

text \<open>
  The fields of \<^verbatim>\<open>DriftEngine\<close>. The attribute \<^verbatim>\<open>vectorizer\<close> is an object of the
  third-party library; what the engine uses of it is the parameter \<open>vec\<close> of
  \<open>check_drift\<close> below. The attribute \<^verbatim>\<open>north_star_embedding\<close> is set to \<^verbatim>\<open>None\<close> once and
  never read, and is left out.
\<close>

record DriftEngine =
  threshold :: real
  check_interval :: int
  north_star :: "string option"
  conversation_history :: "ConversationTurn list"
  drift_history :: "DriftMetrics list"
  last_good_turn :: int
  all_texts :: "string list"

text \<open>
  The result of \<^verbatim>\<open>fit_transform\<close> on the two texts followed by the cosine similarity of
  the two rows: \<open>Some s\<close> when it returns the score \<open>s\<close>, \<open>None\<close> when it raises. Every
  call fits the vectorizer anew on exactly the two texts, so the outcome is a function of
  them.
\<close>

type_synonym vectorizer = "string \<Rightarrow> string \<Rightarrow> real option"

subsection \<open>Text helpers of Python\<close>

definition is_space :: "char \<Rightarrow> bool" where
  "is_space c = (of_char c \<in> {9, 10, 11, 12, 13, 28, 29, 30, 31, 32, 133, 160 :: nat})"

definition lower_char :: "char \<Rightarrow> char" where
  "lower_char c =
     (let n = (of_char c :: nat)
      in if (65 \<le> n \<and> n \<le> 90) \<or> (192 \<le> n \<and> n \<le> 222 \<and> n \<noteq> 215)
         then char_of (n + 32) else c)"

definition lower :: "string \<Rightarrow> string" where
  "lower s = map lower_char s"

text \<open>\<^verbatim>\<open>str.split()\<close> without a separator: the maximal runs of non-whitespace.\<close>

fun split_acc :: "string \<Rightarrow> string \<Rightarrow> string list" where
  "split_acc w [] = (if w = [] then [] else [w])"
| "split_acc w (c # cs) =
     (if is_space c then (if w = [] then split_acc [] cs else w # split_acc [] cs)
      else split_acc (w @ [c]) cs)"

definition split_ws :: "string \<Rightarrow> string list" where
  "split_ws s = split_acc [] s"

text \<open>\<^verbatim>\<open>sep.join(parts)\<close>.\<close>

fun join :: "string \<Rightarrow> string list \<Rightarrow> string" where
  "join sep [] = []"
| "join sep [x] = x"
| "join sep (x # y # ys) = x @ sep @ join sep (y # ys)"

subsection \<open>The engine\<close>

text \<open>\<^verbatim>\<open>DriftEngine.__init__\<close>.\<close>

definition DriftEngine_init :: "real \<Rightarrow> int \<Rightarrow> DriftEngine" where
  "DriftEngine_init similarity_threshold interval =
     \<lparr> threshold = similarity_threshold,
       check_interval = interval,
       north_star = None,
       conversation_history = [],
       drift_history = [],
       last_good_turn = 0,
       all_texts = [] \<rparr>"

definition set_north_star :: "string \<Rightarrow> DriftEngine \<Rightarrow> DriftEngine" where
  "set_north_star initial_prompt e =
     e\<lparr> north_star := Some initial_prompt,
        all_texts := [initial_prompt],
        DriftEngine.last_good_turn := 1 \<rparr>"

text \<open>\<^verbatim>\<open>conversation_history[-3:]\<close>, each turn rendered and the parts joined by a space.\<close>

definition generate_state_summary :: "DriftEngine \<Rightarrow> string" where
  "generate_state_summary e =
     (let recent_turns = drop (length (conversation_history e) - 3) (conversation_history e);
          summary_parts = map (\<lambda>turn. user_message turn @ '' '' @ assistant_response turn)
                              recent_turns
      in join '' '' summary_parts)"

text \<open>The body of the \<^verbatim>\<open>except\<close> branch of \<^verbatim>\<open>check_drift\<close>: the word overlap ratio.\<close>

definition fallback_similarity :: "string \<Rightarrow> string \<Rightarrow> real" where
  "fallback_similarity goal current_state =
     (let north_words = set (split_ws (lower goal));
          current_words = set (split_ws (lower current_state))
      in if card (north_words \<union> current_words) > 0
         then real (card (north_words \<inter> current_words))
              / real (card (north_words \<union> current_words))
         else 0)"

text \<open>The \<^verbatim>\<open>try\<close> block of \<^verbatim>\<open>check_drift\<close> with its \<^verbatim>\<open>except Exception\<close> branch.\<close>

definition similarity_of :: "vectorizer \<Rightarrow> string \<Rightarrow> string \<Rightarrow> real" where
  "similarity_of vec goal current_state =
     (case vec goal current_state of
        Some s \<Rightarrow> s
      | None \<Rightarrow> fallback_similarity goal current_state)"

text \<open>
  The test \<^verbatim>\<open>if not self.north_star\<close>: the goal counts as set when it is neither \<^verbatim>\<open>None\<close>
  nor the empty string.
\<close>

definition goal_set :: "DriftEngine \<Rightarrow> bool" where
  "goal_set e = (case north_star e of None \<Rightarrow> False | Some g \<Rightarrow> g \<noteq> [])"

definition check_drift :: "vectorizer \<Rightarrow> DriftEngine \<Rightarrow> (error + DriftMetrics) \<times> DriftEngine" where
  "check_drift vec e =
     (case north_star e of
        None \<Rightarrow> (Inl ValueError, e)
      | Some g \<Rightarrow>
          if g = [] then (Inl ValueError, e)
          else
            let current_state = generate_state_summary e;
                similarity = similarity_of vec g current_state;
                drifting = similarity < threshold e;
                e1 = (if \<not> drifting
                      then e\<lparr> DriftEngine.last_good_turn := int (length (conversation_history e)) \<rparr>
                      else e);
                metrics = \<lparr> DriftMetrics.turn_number = int (length (conversation_history e1)),
                            similarity_score = similarity,
                            is_drifting = drifting,
                            DriftMetrics.last_good_turn = DriftEngine.last_good_turn e1,
                            drift_reason = None \<rparr>
            in (Inr metrics, e1\<lparr> drift_history := drift_history e1 @ [metrics] \<rparr>))"

text \<open>
  \<^verbatim>\<open>add_turn\<close>; \<open>now\<close> is the value of \<^verbatim>\<open>datetime.now()\<close>. The turn is appended before
  the interval test, so it stays when \<^verbatim>\<open>%\<close> or \<^verbatim>\<open>check_drift\<close> raises.
\<close>

definition add_turn ::
  "vectorizer \<Rightarrow> int \<Rightarrow> string \<Rightarrow> string \<Rightarrow> DriftEngine
     \<Rightarrow> (error + DriftMetrics option) \<times> DriftEngine" where
  "add_turn vec now user assistant e =
     (let number = int (length (conversation_history e)) + 1;
          turn = \<lparr> ConversationTurn.turn_number = number, user_message = user,
                   assistant_response = assistant, timestamp = now \<rparr>;
          e1 = e\<lparr> conversation_history := conversation_history e @ [turn],
                  all_texts := all_texts e @ [user @ '' '' @ assistant] \<rparr>
      in if check_interval e1 = 0 then (Inl ZeroDivisionError, e1)
         else if number mod check_interval e1 = 0
         then (case check_drift vec e1 of
                 (Inl err, e2) \<Rightarrow> (Inl err, e2)
               | (Inr metrics, e2) \<Rightarrow> (Inr (Some metrics), e2))
         else (Inr None, e1))"

text \<open>The dictionary returned by \<^verbatim>\<open>get_conversation_summary\<close>, one field per key.\<close>

record Summary =
  total_turns :: int
  summary_north_star :: "string option"
  summary_last_good_turn :: int
  current_drift_status :: bool
  drift_checks :: int
  summary_conversation_history :: "(int \<times> string \<times> string) list"

definition get_conversation_summary :: "DriftEngine \<Rightarrow> Summary" where
  "get_conversation_summary e =
     \<lparr> total_turns = int (length (conversation_history e)),
       summary_north_star = north_star e,
       summary_last_good_turn = DriftEngine.last_good_turn e,
       current_drift_status =
         (if drift_history e \<noteq> [] then is_drifting (last (drift_history e)) else False),
       drift_checks = int (length (drift_history e)),
       summary_conversation_history =
         map (\<lambda>t. (ConversationTurn.turn_number t, user_message t, assistant_response t))
             (conversation_history e) \<rparr>"

subsection \<open>The API layer's engine\<close>

text \<open>The module-level \<^verbatim>\<open>engine\<close> of \<^verbatim>\<open>main.py\<close> and the handler of \<^verbatim>\<open>/reset\<close>, which
  rebinds the global.\<close>

definition engine :: DriftEngine where
  "engine = DriftEngine_init (7 / 10) 3"

definition reset_conversation :: "DriftEngine \<Rightarrow> DriftEngine" where
  "reset_conversation current = DriftEngine_init (45 / 100) 3"

subsection \<open>Sequences of calls\<close>

text \<open>
  A caller's use of one engine: a list of calls, each applied to the engine the previous
  one left. A call that raises leaves the engine as it was at the \<^verbatim>\<open>raise\<close>, and the
  caller goes on with it.
\<close>

datatype op = SetGoal string | AddTurn int string string | CheckDrift

fun apply_op :: "vectorizer \<Rightarrow> DriftEngine \<Rightarrow> op \<Rightarrow> DriftEngine" where
  "apply_op vec e (SetGoal g) = set_north_star g e"
| "apply_op vec e (AddTurn now u a) = snd (add_turn vec now u a e)"
| "apply_op vec e CheckDrift = snd (check_drift vec e)"

fun trace :: "vectorizer \<Rightarrow> DriftEngine \<Rightarrow> op list \<Rightarrow> DriftEngine list" where
  "trace vec e [] = [e]"
| "trace vec e (x # xs) = e # trace vec (apply_op vec e x) xs"

fun is_SetGoal :: "op \<Rightarrow> bool" where
  "is_SetGoal (SetGoal g) = True"
| "is_SetGoal _ = False"

text \<open>
  A vectorizer whose \<^verbatim>\<open>fit_transform\<close> raises, as it does on two texts that hold stop
  words only (empty vocabulary); the engine then scores with the word overlap.
\<close>

definition vectorizer_fails :: vectorizer where
  "vectorizer_fails = (\<lambda>goal current_state. None)"

text \<open>The engine of \<^verbatim>\<open>add_turn\<close> after the two appends, and its interval test.\<close>

definition with_turn :: "int \<Rightarrow> string \<Rightarrow> string \<Rightarrow> DriftEngine \<Rightarrow> DriftEngine" where
  "with_turn now u a e =
     e\<lparr> conversation_history := conversation_history e @
           [\<lparr> ConversationTurn.turn_number = int (length (conversation_history e)) + 1,
              user_message = u, assistant_response = a, timestamp = now \<rparr>],
        all_texts := all_texts e @ [u @ '' '' @ a] \<rparr>"

definition checks_now :: "DriftEngine \<Rightarrow> bool" where
  "checks_now e \<longleftrightarrow> check_interval e \<noteq> 0
     \<and> (int (length (conversation_history e)) + 1) mod check_interval e = 0"

fun run :: "vectorizer \<Rightarrow> DriftEngine \<Rightarrow> op list \<Rightarrow> DriftEngine" where
  "run vec e [] = e"
| "run vec e (x # xs) = run vec (apply_op vec e x) xs"

text \<open>
  The engine of the quick test at the end of \<^verbatim>\<open>drift_engine.py\<close>, and a session of
  three turns on it whose texts are stop words only.
\<close>

definition standalone_engine :: DriftEngine where
  "standalone_engine = DriftEngine_init (45 / 100) 3"

definition three_turns :: "op list" where
  "three_turns = [SetGoal ''the'', AddTurn 1 ''the'' ''the'', AddTurn 2 ''the'' ''the'',
                  AddTurn 3 ''the'' ''the'']"

text \<open>A vectorizer that scores every pair of texts \<open>s\<close>.\<close>

definition constant_vectorizer :: "real \<Rightarrow> vectorizer" where
  "constant_vectorizer s = (\<lambda>goal current_state. Some s)"

text \<open>The word set that the overlap ratio takes of a text.\<close>

definition words_of :: "string \<Rightarrow> string set" where
  "words_of t = set (split_ws (lower t))"

text \<open>
  What the code gives a verdict \<open>m\<close> that scores the goal \<open>g\<close> against the window text
  \<open>c\<close> under the threshold \<open>th\<close>: the flag is the threshold test, and the score is the
  vectorizer's own when it returns one, and the word overlap ratio, which lies in the unit
  interval, when it raises.
\<close>

definition verdict_of :: "vectorizer \<Rightarrow> real \<Rightarrow> string \<Rightarrow> string \<Rightarrow> DriftMetrics \<Rightarrow> bool" where
  "verdict_of vec th g c m \<longleftrightarrow>
     is_drifting m = (similarity_score m < th)
     \<and> (case vec g c of
          Some s \<Rightarrow> similarity_score m = s
        | None \<Rightarrow> similarity_score m = fallback_similarity g c
                  \<and> 0 \<le> similarity_score m \<and> similarity_score m \<le> 1)"

text \<open>
  The score that double-precision arithmetic gives two identical texts of three equally
  weighted terms, such as \<^verbatim>\<open>refund order\<close> with its two words and one bigram: each
  normalised weight is the double nearest to \<open>1 / sqrt 3\<close>, and the sum of the three
  rounded squares is \<open>1 + 2 ^ -52\<close>, printed \<^verbatim>\<open>1.0000000000000002\<close>.
\<close>

definition rounded_unit_score :: real where
  "rounded_unit_score = 4503599627370497 / 4503599627370496"

text \<open>A session of one turn whose window text equals the goal.\<close>

definition one_turn :: "op list" where
  "one_turn = [SetGoal ''refund order'', AddTurn 1 ''refund'' ''order'']"

text \<open>A score in the unit interval with the flag of the threshold \<open>th\<close>.\<close>

definition sound_verdict :: "real \<Rightarrow> DriftMetrics \<Rightarrow> bool" where
  "sound_verdict th m \<longleftrightarrow> 0 \<le> similarity_score m \<and> similarity_score m \<le> 1
     \<and> is_drifting m = (similarity_score m < th)"

text \<open>
  A run of \<open>add_turn\<close> calls, each given its time stamp and the two messages, with the
  list of what the calls returned.
\<close>

fun add_turns ::
  "vectorizer \<Rightarrow> DriftEngine \<Rightarrow> (int \<times> string \<times> string) list
     \<Rightarrow> (error + DriftMetrics option) list \<times> DriftEngine" where
  "add_turns vec e [] = ([], e)"
| "add_turns vec e ((now, u, a) # ts) =
     (let (r, e1) = add_turn vec now u a e;
          (rs, e2) = add_turns vec e1 ts
      in (r # rs, e2))"

fun is_verdict :: "error + DriftMetrics option \<Rightarrow> bool" where
  "is_verdict (Inr (Some m)) = True"
| "is_verdict _ = False"

definition six_turns :: "(int \<times> string \<times> string) list" where
  "six_turns = [(1, ''the'', ''the''), (2, ''the'', ''the''), (3, ''the'', ''the''),
                (4, ''a'', ''an''), (5, ''a'', ''an''), (6, ''a'', ''an'')]"

section \<open>Properties\<close>

lemmas eval_defs = vectorizer_fails_def add_turn_def check_drift_def set_north_star_def
  DriftEngine_init_def generate_state_summary_def similarity_of_def fallback_similarity_def
  split_ws_def lower_def lower_char_def is_space_def get_conversation_summary_def Let_def
  standalone_engine_def three_turns_def goal_set_def engine_def reset_conversation_def
  six_turns_def

subsection \<open>Evaluation and appending, step by step\<close>

lemma check_drift_unset:
  "\<not> goal_set e \<Longrightarrow> check_drift vec e = (Inl ValueError, e)"
  by (simp add: goal_set_def check_drift_def split: option.splits)

lemma check_drift_set:
  assumes "goal_set e"
  shows "\<exists>m e'. check_drift vec e = (Inr m, e')
    \<and> similarity_score m = similarity_of vec (the (north_star e)) (generate_state_summary e)
    \<and> is_drifting m = (similarity_score m < threshold e)
    \<and> DriftMetrics.turn_number m = int (length (conversation_history e))
    \<and> DriftMetrics.last_good_turn m = DriftEngine.last_good_turn e'
    \<and> drift_reason m = None
    \<and> e' = e\<lparr> DriftEngine.last_good_turn :=
                 (if is_drifting m then DriftEngine.last_good_turn e
                  else int (length (conversation_history e))),
               drift_history := drift_history e @ [m] \<rparr>"
  using assms
  by (cases "north_star e") (auto simp add: goal_set_def check_drift_def Let_def)

lemma check_drift_last_good_turn:
  "DriftEngine.last_good_turn (snd (check_drift vec e)) = DriftEngine.last_good_turn e
   \<or> DriftEngine.last_good_turn (snd (check_drift vec e)) = int (length (conversation_history e))"
  by (cases "goal_set e") (use check_drift_set [of e vec] in \<open>auto simp add: check_drift_unset\<close>)

lemma check_drift_history:
  "conversation_history (snd (check_drift vec e)) = conversation_history e"
  by (cases "goal_set e") (use check_drift_set [of e vec] in \<open>auto simp add: check_drift_unset\<close>)

lemma add_turn_snd:
  "snd (add_turn vec now u a e) =
     (if checks_now e then snd (check_drift vec (with_turn now u a e)) else with_turn now u a e)"
  by (auto simp add: add_turn_def with_turn_def checks_now_def Let_def split: prod.splits sum.splits)

lemma add_turn_fst:
  "fst (add_turn vec now u a e) =
     (if check_interval e = 0 then Inl ZeroDivisionError
      else if checks_now e
      then (case fst (check_drift vec (with_turn now u a e)) of
              Inl err \<Rightarrow> Inl err | Inr m \<Rightarrow> Inr (Some m))
      else Inr None)"
  by (auto simp add: add_turn_def with_turn_def checks_now_def Let_def split: prod.splits sum.splits)

lemma with_turn_simps [simp]:
  "conversation_history (with_turn now u a e) = conversation_history e @
     [\<lparr> ConversationTurn.turn_number = int (length (conversation_history e)) + 1,
        user_message = u, assistant_response = a, timestamp = now \<rparr>]"
  "drift_history (with_turn now u a e) = drift_history e"
  "DriftEngine.last_good_turn (with_turn now u a e) = DriftEngine.last_good_turn e"
  "north_star (with_turn now u a e) = north_star e"
  "threshold (with_turn now u a e) = threshold e"
  "check_interval (with_turn now u a e) = check_interval e"
  "goal_set (with_turn now u a e) = goal_set e"
  by (simp_all add: with_turn_def goal_set_def)

lemma add_turn_history:
  "conversation_history (snd (add_turn vec now u a e)) =
     conversation_history e @
       [\<lparr> ConversationTurn.turn_number = int (length (conversation_history e)) + 1,
          user_message = u, assistant_response = a, timestamp = now \<rparr>]"
  by (simp add: add_turn_snd check_drift_history)

lemma step_monotone:
  assumes "DriftEngine.last_good_turn e \<le> int (length (conversation_history e))"
    and "\<not> is_SetGoal x"
  shows "DriftEngine.last_good_turn e \<le> DriftEngine.last_good_turn (apply_op vec e x)
    \<and> DriftEngine.last_good_turn (apply_op vec e x)
        \<le> int (length (conversation_history (apply_op vec e x)))"
proof (cases x)
  case (SetGoal g)
  with assms show ?thesis by simp
next
  case (AddTurn now u a)
  show ?thesis
  proof (cases "checks_now e")
    case True
    then show ?thesis
      using assms(1) check_drift_last_good_turn [of vec "with_turn now u a e"]
      by (auto simp add: AddTurn add_turn_snd check_drift_history)
  next
    case False
    then show ?thesis using assms(1) by (simp add: AddTurn add_turn_snd)
  qed
next
  case CheckDrift
  then show ?thesis
    using assms(1) check_drift_last_good_turn [of vec e]
    by (auto simp add: check_drift_history)
qed

lemma trace_lower_bound:
  assumes "DriftEngine.last_good_turn e \<le> int (length (conversation_history e))"
    and "\<forall>x\<in>set ops. \<not> is_SetGoal x"
  shows "\<forall>s\<in>set (trace vec e ops). DriftEngine.last_good_turn e \<le> DriftEngine.last_good_turn s"
  using assms
proof (induction ops arbitrary: e)
  case Nil
  then show ?case by simp
next
  case (Cons x xs)
  have st: "DriftEngine.last_good_turn e \<le> DriftEngine.last_good_turn (apply_op vec e x)"
    "DriftEngine.last_good_turn (apply_op vec e x)
        \<le> int (length (conversation_history (apply_op vec e x)))"
    using step_monotone [of e x vec] Cons.prems by simp_all
  have "\<forall>s\<in>set (trace vec (apply_op vec e x) xs).
          DriftEngine.last_good_turn (apply_op vec e x) \<le> DriftEngine.last_good_turn s"
    using Cons.IH [OF st(2)] Cons.prems(2) by simp
  with st(1) show ?case by fastforce
qed

subsection \<open>The last good turn over a session\<close>

text \<open>
  Claim C3, as amended. Along any sequence of \<open>add_turn\<close> and \<open>check_drift\<close> calls (no
  \<open>set_north_star\<close> among them) that starts from an engine whose \<open>last_good_turn\<close> is at
  most the number of turns recorded, \<open>last_good_turn\<close> never decreases: the list of its
  values along the trace is sorted. A call that raises counts as a step too.
\<close>

theorem last_good_turn_monotone_within_session:
  assumes "DriftEngine.last_good_turn e \<le> int (length (conversation_history e))"
    and "\<forall>x\<in>set ops. \<not> is_SetGoal x"
  shows "sorted (map DriftEngine.last_good_turn (trace vec e ops))"
  using assms
proof (induction ops arbitrary: e)
  case Nil
  then show ?case by simp
next
  case (Cons x xs)
  have st: "DriftEngine.last_good_turn (apply_op vec e x)
        \<le> int (length (conversation_history (apply_op vec e x)))"
    using step_monotone [of e x vec] Cons.prems by simp
  have "sorted (map DriftEngine.last_good_turn (trace vec (apply_op vec e x) xs))"
    using Cons.IH [OF st] Cons.prems(2) by simp
  moreover have "\<forall>s\<in>set (trace vec (apply_op vec e x) xs).
      DriftEngine.last_good_turn e \<le> DriftEngine.last_good_turn s"
    using trace_lower_bound [OF Cons.prems] by simp
  ultimately show ?case by simp
qed

theorem last_good_turn_monotone_within_session_witness:
  "DriftEngine.last_good_turn (run vectorizer_fails standalone_engine three_turns)
     \<le> int (length (conversation_history (run vectorizer_fails standalone_engine three_turns)))
   \<and> \<not> is_SetGoal (AddTurn 4 ''a'' ''b'') \<and> \<not> is_SetGoal CheckDrift
   \<and> sorted (map DriftEngine.last_good_turn
        (trace vectorizer_fails (run vectorizer_fails standalone_engine three_turns)
           [AddTurn 4 ''a'' ''b'', CheckDrift]))"
proof -
  have h1: "DriftEngine.last_good_turn (run vectorizer_fails standalone_engine three_turns)
     \<le> int (length (conversation_history (run vectorizer_fails standalone_engine three_turns)))"
    by (simp add: eval_defs)
  have h2: "\<forall>x\<in>set [AddTurn 4 ''a'' ''b'', CheckDrift]. \<not> is_SetGoal x"
    by simp
  show ?thesis
    using h1 last_good_turn_monotone_within_session [OF h1 h2, of vectorizer_fails] by simp
qed

text \<open>
  Claim C3 as stated fails. On the standalone engine, three turns whose third is judged on
  track (word overlap 1) raise \<open>last_good_turn\<close> to 3, and a further \<open>set_north_star\<close>
  puts it back to 1.
\<close>

theorem last_good_turn_monotone_counterexample:
  "map DriftEngine.last_good_turn
     (trace vectorizer_fails standalone_engine (three_turns @ [SetGoal ''the'']))
   = [0, 1, 1, 1, 3, 1]
   \<and> \<not> sorted (map DriftEngine.last_good_turn
     (trace vectorizer_fails standalone_engine (three_turns @ [SetGoal ''the''])))"
  by (simp add: eval_defs)

subsection \<open>Setting the goal\<close>

text \<open>
  Claim C1, as amended. \<open>set_north_star\<close> stores the goal and sets \<open>last_good_turn\<close> to 1;
  it leaves the conversation history, the drift history, the threshold and the interval
  as they were. So the summary taken right after reports \<open>last_good_turn = 1\<close>, and, when
  the two histories were empty before the call, \<open>total_turns = 0\<close>, \<open>drift_checks = 0\<close> and
  \<open>current_drift_status = False\<close>.
\<close>

theorem set_north_star_keeps_histories:
  "north_star (set_north_star g e) = Some g
   \<and> DriftEngine.last_good_turn (set_north_star g e) = 1
   \<and> conversation_history (set_north_star g e) = conversation_history e
   \<and> drift_history (set_north_star g e) = drift_history e
   \<and> threshold (set_north_star g e) = threshold e
   \<and> check_interval (set_north_star g e) = check_interval e
   \<and> summary_last_good_turn (get_conversation_summary (set_north_star g e)) = 1
   \<and> (conversation_history e = [] \<and> drift_history e = [] \<longrightarrow>
        total_turns (get_conversation_summary (set_north_star g e)) = 0
        \<and> drift_checks (get_conversation_summary (set_north_star g e)) = 0
        \<and> current_drift_status (get_conversation_summary (set_north_star g e)) = False)"
  by (simp add: set_north_star_def get_conversation_summary_def)

theorem set_north_star_keeps_histories_witness:
  "conversation_history standalone_engine = [] \<and> drift_history standalone_engine = []
   \<and> total_turns (get_conversation_summary (set_north_star ''X'' standalone_engine)) = 0
   \<and> summary_last_good_turn (get_conversation_summary (set_north_star ''X'' standalone_engine)) = 1
   \<and> drift_checks (get_conversation_summary (set_north_star ''X'' standalone_engine)) = 0
   \<and> current_drift_status (get_conversation_summary (set_north_star ''X'' standalone_engine)) = False"
proof -
  have h: "conversation_history standalone_engine = [] \<and> drift_history standalone_engine = []"
    by (simp add: standalone_engine_def DriftEngine_init_def)
  show ?thesis
    using h set_north_star_keeps_histories [of "''X''" standalone_engine] by blast
qed

text \<open>
  Claim C1 as stated fails. After a session of three turns, which holds one verdict, a
  further \<open>set_north_star\<close> keeps the three turns and the verdict, and the summary
  reports them.
\<close>

theorem set_north_star_reset_counterexample:
  "conversation_history (set_north_star ''X'' (run vectorizer_fails standalone_engine three_turns)) \<noteq> []
   \<and> drift_history (set_north_star ''X'' (run vectorizer_fails standalone_engine three_turns)) \<noteq> []
   \<and> total_turns (get_conversation_summary
        (set_north_star ''X'' (run vectorizer_fails standalone_engine three_turns))) = 3
   \<and> drift_checks (get_conversation_summary
        (set_north_star ''X'' (run vectorizer_fails standalone_engine three_turns))) = 1"
  by (simp add: eval_defs)

subsection \<open>Calls before the goal is set\<close>

text \<open>
  Claim C2, evaluated on the code. On an engine whose goal was never set, \<open>check_drift\<close>
  raises \<^verbatim>\<open>ValueError\<close> and leaves the engine as it was. \<open>add_turn\<close> has no such test: the
  first call returns \<^verbatim>\<open>None\<close> and the history has grown by one turn; the third call,
  whose number is a multiple of the interval, raises \<^verbatim>\<open>ValueError\<close> from \<open>check_drift\<close>
  after the turn was appended, so the history holds three turns.
\<close>

theorem add_turn_without_goal_diverges:
  "\<not> goal_set standalone_engine
   \<and> check_drift vectorizer_fails standalone_engine = (Inl ValueError, standalone_engine)
   \<and> fst (add_turn vectorizer_fails 1 ''hi'' ''hello'' standalone_engine) = Inr None
   \<and> length (conversation_history
        (snd (add_turn vectorizer_fails 1 ''hi'' ''hello'' standalone_engine)))
       = length (conversation_history standalone_engine) + 1
   \<and> fst (add_turn vectorizer_fails 3 ''hi'' ''hello''
            (run vectorizer_fails standalone_engine
               [AddTurn 1 ''hi'' ''hello'', AddTurn 2 ''hi'' ''hello'']))
       = Inl ValueError
   \<and> length (conversation_history (snd (add_turn vectorizer_fails 3 ''hi'' ''hello''
            (run vectorizer_fails standalone_engine
               [AddTurn 1 ''hi'' ''hello'', AddTurn 2 ''hi'' ''hello'']))))
       = 3"
  by (simp add: eval_defs)

subsection \<open>The reset of the API layer\<close>

text \<open>
  Claim C9, evaluated on the code. The service starts its engine with threshold 0.7 and
  interval 3; the engine that \<open>reset_conversation\<close> constructs has the same interval and
  the threshold 0.45.
\<close>

theorem reset_conversation_threshold_differs:
  "threshold engine = 7 / 10
   \<and> check_interval engine = 3
   \<and> threshold (reset_conversation engine) = 45 / 100
   \<and> threshold (reset_conversation engine) \<noteq> threshold engine
   \<and> check_interval (reset_conversation engine) = check_interval engine"
  by (simp add: eval_defs)

subsection \<open>The effect of one evaluation\<close>

text \<open>
  Claim C5. On an engine whose goal is set, \<open>check_drift\<close> returns a verdict and changes
  the engine in two fields only: \<open>last_good_turn\<close> becomes the number of recorded turns
  when the score is not below the threshold and stays as it was otherwise, and the verdict
  is appended to the drift history. The verdict carries the value of \<open>last_good_turn\<close>
  after the update; the conversation history and the goal are as before.
\<close>

theorem check_drift_frame:
  assumes "goal_set e"
  shows "\<exists>m. check_drift vec e =
           (Inr m, e\<lparr> DriftEngine.last_good_turn :=
                        (if similarity_of vec (the (north_star e)) (generate_state_summary e)
                              < threshold e
                         then DriftEngine.last_good_turn e
                         else int (length (conversation_history e))),
                      drift_history := drift_history e @ [m] \<rparr>)
         \<and> similarity_score m
             = similarity_of vec (the (north_star e)) (generate_state_summary e)
         \<and> DriftMetrics.last_good_turn m
             = DriftEngine.last_good_turn (snd (check_drift vec e))
         \<and> drift_history (snd (check_drift vec e)) = drift_history e @ [m]
         \<and> conversation_history (snd (check_drift vec e)) = conversation_history e
         \<and> north_star (snd (check_drift vec e)) = north_star e"
  using check_drift_set [OF assms, of vec] by auto

theorem check_drift_frame_witness:
  "goal_set (run vectorizer_fails standalone_engine three_turns)
   \<and> (\<exists>m. fst (check_drift vectorizer_fails (run vectorizer_fails standalone_engine three_turns))
            = Inr m
        \<and> similarity_score m = 1
        \<and> DriftMetrics.last_good_turn m = 3
        \<and> drift_history (snd (check_drift vectorizer_fails
              (run vectorizer_fails standalone_engine three_turns)))
            = drift_history (run vectorizer_fails standalone_engine three_turns) @ [m])"
proof -
  have h: "goal_set (run vectorizer_fails standalone_engine three_turns)"
    by (simp add: eval_defs)
  have s: "similarity_of vectorizer_fails
             (the (north_star (run vectorizer_fails standalone_engine three_turns)))
             (generate_state_summary (run vectorizer_fails standalone_engine three_turns)) = 1"
    by (simp add: eval_defs)
  have l: "DriftEngine.last_good_turn (snd (check_drift vectorizer_fails
              (run vectorizer_fails standalone_engine three_turns))) = 3"
    by (simp add: eval_defs)
  show ?thesis
    using h s l check_drift_frame [OF h, of vectorizer_fails] by auto
qed

text \<open>
  Claim C7. Two \<open>check_drift\<close> calls in a row on an engine whose goal is set return two
  verdicts with the same score, which is the similarity of the goal and the summary of
  the current window, and the drift history has grown by both of them.
\<close>

theorem check_drift_twice:
  assumes "goal_set e"
  shows "\<exists>m1 e1 m2 e2. check_drift vec e = (Inr m1, e1) \<and> check_drift vec e1 = (Inr m2, e2)
     \<and> similarity_score m1 = similarity_score m2
     \<and> similarity_score m1 = similarity_of vec (the (north_star e)) (generate_state_summary e)
     \<and> drift_history e2 = drift_history e @ [m1, m2]
     \<and> length (drift_history e2) = length (drift_history e) + 2"
proof -
  obtain m1 e1 where 1: "check_drift vec e = (Inr m1, e1)"
    "similarity_score m1 = similarity_of vec (the (north_star e)) (generate_state_summary e)"
    "e1 = e\<lparr> DriftEngine.last_good_turn :=
                 (if is_drifting m1 then DriftEngine.last_good_turn e
                  else int (length (conversation_history e))),
               drift_history := drift_history e @ [m1] \<rparr>"
    using check_drift_set [OF assms, of vec] by blast
  have g1: "goal_set e1" using assms 1(3) by (simp add: goal_set_def)
  obtain m2 e2 where 2: "check_drift vec e1 = (Inr m2, e2)"
    "similarity_score m2 = similarity_of vec (the (north_star e1)) (generate_state_summary e1)"
    "e2 = e1\<lparr> DriftEngine.last_good_turn :=
                 (if is_drifting m2 then DriftEngine.last_good_turn e1
                  else int (length (conversation_history e1))),
               drift_history := drift_history e1 @ [m2] \<rparr>"
    using check_drift_set [OF g1, of vec] by blast
  have "north_star e1 = north_star e" "generate_state_summary e1 = generate_state_summary e"
    using 1(3) by (simp_all add: generate_state_summary_def)
  with 1 2 show ?thesis by simp
qed

theorem check_drift_twice_witness:
  "goal_set (run vectorizer_fails standalone_engine three_turns)
   \<and> (\<exists>m1 e1 m2 e2.
        check_drift vectorizer_fails (run vectorizer_fails standalone_engine three_turns)
          = (Inr m1, e1)
        \<and> check_drift vectorizer_fails e1 = (Inr m2, e2)
        \<and> similarity_score m1 = similarity_score m2
        \<and> length (drift_history e2) = 3)"
proof -
  have h: "goal_set (run vectorizer_fails standalone_engine three_turns)"
    by (simp add: eval_defs)
  have l: "length (drift_history (run vectorizer_fails standalone_engine three_turns)) = 1"
    by (simp add: eval_defs)
  show ?thesis
    using h l check_drift_twice [OF h, of vectorizer_fails] by fastforce
qed

subsection \<open>An evaluation before the first turn\<close>

lemma apply_op_turn_numbers:
  assumes "\<forall>t\<in>set (conversation_history e). 0 < ConversationTurn.turn_number t"
  shows "\<forall>t\<in>set (conversation_history (apply_op vec e x)). 0 < ConversationTurn.turn_number t"
  using assms
  by (cases x) (auto simp add: set_north_star_def add_turn_history check_drift_history)

lemma run_turn_numbers:
  assumes "\<forall>t\<in>set (conversation_history e). 0 < ConversationTurn.turn_number t"
  shows "\<forall>t\<in>set (conversation_history (run vec e ops)). 0 < ConversationTurn.turn_number t"
  using assms
proof (induction ops arbitrary: e)
  case Nil
  then show ?case by simp
next
  case (Cons x xs)
  show ?case using Cons.IH [OF apply_op_turn_numbers [OF Cons.prems]] by simp
qed

text \<open>
  Claim C10. On an engine whose goal is set (to a non-empty text) and whose conversation
  history is empty, \<open>check_drift\<close> returns a verdict with turn number 0. When the score
  is not below the threshold, \<open>last_good_turn\<close> becomes 0, below the 1 that
  \<open>set_north_star\<close> assigns. No engine built by the constructor and any sequence of calls
  holds a turn with that number.
\<close>

theorem check_drift_on_empty_history:
  assumes "goal_set e" and "conversation_history e = []"
  shows "\<exists>m e'. check_drift vec e = (Inr m, e') \<and> DriftMetrics.turn_number m = 0
      \<and> (\<not> similarity_score m < threshold e \<longrightarrow>
            DriftEngine.last_good_turn e' = 0 \<and> DriftMetrics.last_good_turn m = 0
            \<and> DriftEngine.last_good_turn e' < DriftEngine.last_good_turn (set_north_star g e))
      \<and> (\<forall>t\<in>set (conversation_history (run v (DriftEngine_init th ci) ops)).
            ConversationTurn.turn_number t \<noteq> DriftMetrics.turn_number m)"
proof -
  have pos: "\<forall>t\<in>set (conversation_history (run v (DriftEngine_init th ci) ops)).
          0 < ConversationTurn.turn_number t"
    by (rule run_turn_numbers) (simp add: DriftEngine_init_def)
  obtain m e' where c: "check_drift vec e = (Inr m, e')"
    and n: "DriftMetrics.turn_number m = int (length (conversation_history e))"
    and d: "is_drifting m = (similarity_score m < threshold e)"
    and l: "DriftMetrics.last_good_turn m = DriftEngine.last_good_turn e'"
    and e': "e' = e\<lparr> DriftEngine.last_good_turn :=
                 (if is_drifting m then DriftEngine.last_good_turn e
                  else int (length (conversation_history e))),
               drift_history := drift_history e @ [m] \<rparr>"
    using check_drift_set [OF assms(1), of vec] by blast
  have zero: "DriftMetrics.turn_number m = 0"
    using n assms(2) by simp
  have good: "\<not> similarity_score m < threshold e \<longrightarrow>
            DriftEngine.last_good_turn e' = 0 \<and> DriftMetrics.last_good_turn m = 0
            \<and> DriftEngine.last_good_turn e' < DriftEngine.last_good_turn (set_north_star g e)"
    using d l e' assms(2) by (simp add: set_north_star_def)
  have none: "\<forall>t\<in>set (conversation_history (run v (DriftEngine_init th ci) ops)).
            ConversationTurn.turn_number t \<noteq> DriftMetrics.turn_number m"
    using pos zero by fastforce
  from c zero good none show ?thesis by blast
qed

theorem check_drift_on_empty_history_witness:
  "goal_set (set_north_star ''refund'' (DriftEngine_init 0 3))
   \<and> conversation_history (set_north_star ''refund'' (DriftEngine_init 0 3)) = []
   \<and> (\<exists>m e'. check_drift vectorizer_fails (set_north_star ''refund'' (DriftEngine_init 0 3))
                = (Inr m, e')
         \<and> DriftMetrics.turn_number m = 0 \<and> similarity_score m = 0
         \<and> DriftEngine.last_good_turn e' = 0)"
proof -
  have h1: "goal_set (set_north_star ''refund'' (DriftEngine_init 0 3))"
    and h2: "conversation_history (set_north_star ''refund'' (DriftEngine_init 0 3)) = []"
    and t: "threshold (set_north_star ''refund'' (DriftEngine_init 0 3)) = 0"
    by (simp_all add: eval_defs)
  have s: "similarity_score (projr (fst (check_drift vectorizer_fails
              (set_north_star ''refund'' (DriftEngine_init 0 3))))) = 0"
    by (simp add: eval_defs)
  show ?thesis
    using h1 h2 t s check_drift_on_empty_history [OF h1 h2, of vectorizer_fails "''refund''"]
    by fastforce
qed

subsection \<open>The word overlap ratio\<close>

lemma finite_words_of [simp]: "finite (words_of t)"
  by (simp add: words_of_def)

lemma fallback_similarity_words:
  "fallback_similarity a b =
     (if words_of a \<union> words_of b = {} then 0
      else real (card (words_of a \<inter> words_of b)) / real (card (words_of a \<union> words_of b)))"
proof -
  have "card (words_of a \<union> words_of b) > 0 \<longleftrightarrow> words_of a \<union> words_of b \<noteq> {}"
    by (simp add: card_gt_0_iff)
  then show ?thesis
    unfolding fallback_similarity_def words_of_def Let_def by auto
qed

lemma fallback_similarity_range:
  "0 \<le> fallback_similarity a b \<and> fallback_similarity a b \<le> 1"
proof -
  have le: "card (words_of a \<inter> words_of b) \<le> card (words_of a \<union> words_of b)"
    by (rule card_mono) auto
  show ?thesis
  proof (cases "words_of a \<union> words_of b = {}")
    case True
    then show ?thesis by (simp add: fallback_similarity_words)
  next
    case False
    then have "0 < card (words_of a \<union> words_of b)"
      by (simp add: card_gt_0_iff)
    with le False show ?thesis
      by (simp add: fallback_similarity_words)
  qed
qed

text \<open>
  Claim C8, as amended. The fallback score is a total function of the two texts (it has
  no error result): it is the number of common words over the number of all words of the
  two lower-cased, whitespace-split word sets, and 0 when there is no word at all. It
  lies in the unit interval. On texts with no common word it is 0. On two identical texts
  it is 1 when the text holds a word, and 0 when it holds none.
\<close>

theorem fallback_similarity_overlap:
  "fallback_similarity a b =
     (if words_of a \<union> words_of b = {} then 0
      else real (card (words_of a \<inter> words_of b)) / real (card (words_of a \<union> words_of b)))
   \<and> 0 \<le> fallback_similarity a b \<and> fallback_similarity a b \<le> 1
   \<and> (words_of a \<inter> words_of b = {} \<longrightarrow> fallback_similarity a b = 0)
   \<and> fallback_similarity a a = (if words_of a = {} then 0 else 1)"
proof -
  have "words_of a \<inter> words_of b = {} \<longrightarrow> fallback_similarity a b = 0"
    by (simp add: fallback_similarity_words)
  moreover have "fallback_similarity a a = (if words_of a = {} then 0 else 1)"
    by (simp add: fallback_similarity_words card_gt_0_iff)
  ultimately show ?thesis
    using fallback_similarity_words [of a b] fallback_similarity_range [of a b] by blast
qed

theorem fallback_similarity_overlap_witness:
  "words_of ''refund order'' \<inter> words_of ''Login email'' = {}
   \<and> fallback_similarity ''refund order'' ''Login email'' = 0
   \<and> words_of ''Refund order'' \<noteq> {}
   \<and> fallback_similarity ''Refund order'' ''Refund order'' = 1"
proof -
  have h1: "words_of ''refund order'' \<inter> words_of ''Login email'' = {}"
    by (simp add: words_of_def eval_defs)
  have h2: "words_of ''Refund order'' \<noteq> {}"
    by (simp add: words_of_def eval_defs)
  show ?thesis
    using h1 h2 fallback_similarity_overlap [of "''refund order''" "''Login email''"]
      fallback_similarity_overlap [of "''Refund order''" "''Refund order''"]
    by simp
qed

text \<open>
  Claim C8 as stated fails on identical texts without a word. With the goal \<open>'' ''\<close>
  (one space, which passes the test of \<open>check_drift\<close>) and one turn of two empty
  messages, the summary is the same text, and the fallback scores the pair 0.
\<close>

theorem fallback_similarity_identical_counterexample:
  "fallback_similarity '' '' '' '' = 0
   \<and> fallback_similarity '' '' '' '' \<noteq> 1
   \<and> generate_state_summary
        (run vectorizer_fails standalone_engine [SetGoal '' '', AddTurn 1 [] []]) = '' ''
   \<and> map_sum id similarity_score
        (fst (check_drift vectorizer_fails
           (run vectorizer_fails standalone_engine [SetGoal '' '', AddTurn 1 [] []]))) = Inr 0"
  by (simp add: eval_defs)

subsection \<open>Score and flag of every verdict\<close>

lemma check_drift_threshold:
  "threshold (snd (check_drift vec e)) = threshold e"
  by (cases "goal_set e") (use check_drift_set [of e vec] in \<open>auto simp add: check_drift_unset\<close>)

lemma check_drift_verdict_of:
  assumes "check_drift vec e = (Inr m, e')"
  shows "verdict_of vec (threshold e) (the (north_star e)) (generate_state_summary e) m
     \<and> conversation_history e' = conversation_history e
     \<and> drift_history e' = drift_history e @ [m]"
proof (cases "goal_set e")
  case True
  then show ?thesis
    using check_drift_set [OF True, of vec] assms
      fallback_similarity_range [of "the (north_star e)" "generate_state_summary e"]
    by (auto simp add: verdict_of_def similarity_of_def split: option.splits)
next
  case False
  then show ?thesis using assms by (simp add: check_drift_unset)
qed

lemma add_turn_verdict_of:
  assumes "add_turn vec now u a e = (Inr (Some m), e')"
  shows "verdict_of vec (threshold e) (the (north_star e)) (generate_state_summary e') m"
proof -
  let ?e1 = "with_turn now u a e"
  have f: "fst (add_turn vec now u a e) = Inr (Some m)"
    and s: "snd (add_turn vec now u a e) = e'"
    using assms by simp_all
  have c: "checks_now e"
    using f by (auto simp add: add_turn_fst split: if_splits)
  have "fst (check_drift vec ?e1) = Inr m"
    using f by (auto simp add: add_turn_fst split: if_splits sum.splits)
  moreover have "snd (check_drift vec ?e1) = e'"
    using s c by (simp add: add_turn_snd)
  ultimately have cd: "check_drift vec ?e1 = (Inr m, e')"
    by (metis prod.collapse)
  have "generate_state_summary e' = generate_state_summary ?e1"
    using check_drift_verdict_of [OF cd] by (simp add: generate_state_summary_def)
  then show ?thesis
    using check_drift_verdict_of [OF cd] by simp
qed

lemma check_drift_flags:
  assumes "\<forall>m\<in>set (drift_history e). is_drifting m = (similarity_score m < threshold e)"
  shows "\<forall>m\<in>set (drift_history (snd (check_drift vec e))).
           is_drifting m = (similarity_score m < threshold e)"
proof (cases "fst (check_drift vec e)")
  case (Inl err)
  then have "\<not> goal_set e"
    using check_drift_set [of e vec] by auto
  then show ?thesis using assms by (simp add: check_drift_unset)
next
  case (Inr m)
  then have cd: "check_drift vec e = (Inr m, snd (check_drift vec e))"
    by (metis prod.collapse)
  show ?thesis
    using check_drift_verdict_of [OF cd] assms by (auto simp add: verdict_of_def)
qed

lemma apply_op_flags:
  assumes "\<forall>m\<in>set (drift_history e). is_drifting m = (similarity_score m < threshold e)"
  shows "threshold (apply_op vec e x) = threshold e
    \<and> (\<forall>m\<in>set (drift_history (apply_op vec e x)).
          is_drifting m = (similarity_score m < threshold e))"
proof (cases x)
  case (SetGoal g)
  then show ?thesis using assms by (simp add: set_north_star_def)
next
  case (AddTurn now u a)
  have "\<forall>m\<in>set (drift_history (with_turn now u a e)).
          is_drifting m = (similarity_score m < threshold (with_turn now u a e))"
    using assms by simp
  from check_drift_flags [OF this] show ?thesis
    using assms by (simp add: AddTurn add_turn_snd check_drift_threshold)
next
  case CheckDrift
  then show ?thesis
    using check_drift_flags [OF assms] by (simp add: check_drift_threshold)
qed

lemma run_flags:
  assumes "\<forall>m\<in>set (drift_history e). is_drifting m = (similarity_score m < threshold e)"
  shows "\<forall>m\<in>set (drift_history (run vec e ops)).
           is_drifting m = (similarity_score m < threshold e)"
  using assms
proof (induction ops arbitrary: e)
  case Nil
  then show ?case by simp
next
  case (Cons x xs)
  have st: "threshold (apply_op vec e x) = threshold e"
    "\<forall>m\<in>set (drift_history (apply_op vec e x)).
       is_drifting m = (similarity_score m < threshold (apply_op vec e x))"
    using apply_op_flags [OF Cons.prems, of vec x] by simp_all
  show ?case using Cons.IH [OF st(2)] st(1) by simp
qed

text \<open>
  Claim C6, as amended. Every verdict that \<open>check_drift\<close> or \<open>add_turn\<close> returns has a
  flag equal to (score below the engine's threshold), and so has every verdict in the
  drift history of an engine built by the constructor and any sequence of calls. Its
  score is the vectorizer's score on the goal and the window text, taken as it is, when
  the vectorizer returns one; when the vectorizer raises, it is the word overlap ratio,
  which lies in the unit interval. Nothing is assumed of the vectorizer.
\<close>

theorem verdict_flag_and_score:
  "(\<forall>m e'. check_drift vec e = (Inr m, e') \<longrightarrow>
      verdict_of vec (threshold e) (the (north_star e)) (generate_state_summary e) m)
   \<and> (\<forall>m e'. add_turn vec now u a e = (Inr (Some m), e') \<longrightarrow>
      verdict_of vec (threshold e) (the (north_star e)) (generate_state_summary e') m)
   \<and> (\<forall>m\<in>set (drift_history (run vec (DriftEngine_init th ci) ops)).
        is_drifting m = (similarity_score m < th))"
proof -
  have "\<forall>m\<in>set (drift_history (run vec (DriftEngine_init th ci) ops)).
          is_drifting m = (similarity_score m < threshold (DriftEngine_init th ci))"
    by (rule run_flags) (simp add: DriftEngine_init_def)
  then have "\<forall>m\<in>set (drift_history (run vec (DriftEngine_init th ci) ops)).
          is_drifting m = (similarity_score m < th)"
    by (simp add: DriftEngine_init_def)
  then show ?thesis
    using check_drift_verdict_of [of vec e] add_turn_verdict_of [of vec now u a e] by blast
qed

theorem verdict_flag_and_score_witness:
  "\<exists>m e'. check_drift vectorizer_fails (run vectorizer_fails standalone_engine three_turns)
             = (Inr m, e')
      \<and> similarity_score m = 1 \<and> \<not> is_drifting m
      \<and> verdict_of vectorizer_fails (45 / 100) ''the'' ''the the the the the the'' m"
proof -
  let ?e = "run vectorizer_fails standalone_engine three_turns"
  have g: "goal_set ?e" and t: "threshold ?e = 45 / 100"
    and n: "the (north_star ?e) = ''the''"
    and c: "generate_state_summary ?e = ''the the the the the the''"
    by (simp_all add: eval_defs)
  have f: "fallback_similarity ''the'' ''the the the the the the'' = 1"
    by (simp add: eval_defs)
  obtain m e' where cd: "check_drift vectorizer_fails ?e = (Inr m, e')"
    using check_drift_set [OF g, of vectorizer_fails] by blast
  have v: "verdict_of vectorizer_fails (45 / 100) ''the'' ''the the the the the the'' m"
    using verdict_flag_and_score [of vectorizer_fails ?e] cd t n c by fastforce
  then have "similarity_score m = 1" "\<not> is_drifting m"
    using f by (simp_all add: verdict_of_def vectorizer_fails_def)
  with cd v show ?thesis by blast
qed

text \<open>
  Claim C6 as stated fails on the score. The engine stores the vectorizer's score without
  clamping it: with the goal and the window text both \<^verbatim>\<open>refund order\<close> and the score that
  double-precision arithmetic gives that pair, the verdict's score is above 1.
\<close>

theorem verdict_score_above_one_counterexample:
  "generate_state_summary (run vectorizer_fails standalone_engine one_turn) = ''refund order''
   \<and> north_star (run vectorizer_fails standalone_engine one_turn) = Some ''refund order''
   \<and> map_sum id similarity_score
        (fst (check_drift (constant_vectorizer rounded_unit_score)
           (run vectorizer_fails standalone_engine one_turn))) = Inr rounded_unit_score
   \<and> 1 < rounded_unit_score
   \<and> map_sum id (sound_verdict (45 / 100))
        (fst (check_drift (constant_vectorizer rounded_unit_score)
           (run vectorizer_fails standalone_engine one_turn))) = Inr False"
  by (simp add: eval_defs one_turn_def constant_vectorizer_def rounded_unit_score_def
      sound_verdict_def)

subsection \<open>The schedule of automatic evaluations\<close>

lemma check_drift_config:
  "north_star (snd (check_drift vec e)) = north_star e"
  "check_interval (snd (check_drift vec e)) = check_interval e"
  "goal_set (snd (check_drift vec e)) = goal_set e"
  by (cases "goal_set e";
      use check_drift_set [of e vec] in \<open>auto simp add: check_drift_unset goal_set_def\<close>)+

lemma add_turn_config:
  "check_interval (snd (add_turn vec now u a e)) = check_interval e"
  "goal_set (snd (add_turn vec now u a e)) = goal_set e"
  "length (conversation_history (snd (add_turn vec now u a e)))
     = Suc (length (conversation_history e))"
  by (simp_all add: add_turn_snd check_drift_config check_drift_history)

lemma add_turn_scheduled:
  assumes "goal_set e" and "checks_now e"
  shows "\<exists>m. fst (add_turn vec now u a e) = Inr (Some m)
     \<and> DriftMetrics.turn_number m = int (length (conversation_history e)) + 1
     \<and> drift_history (snd (add_turn vec now u a e)) = drift_history e @ [m]"
proof -
  have g: "goal_set (with_turn now u a e)" using assms(1) by simp
  have z: "check_interval e \<noteq> 0" using assms(2) by (simp add: checks_now_def)
  show ?thesis
    using check_drift_set [OF g, of vec] assms(2) z
    by (auto simp add: add_turn_fst add_turn_snd)
qed

lemma add_turn_unscheduled:
  assumes "check_interval e \<noteq> 0" and "\<not> checks_now e"
  shows "fst (add_turn vec now u a e) = Inr None
     \<and> drift_history (snd (add_turn vec now u a e)) = drift_history e"
  using assms by (simp add: add_turn_fst add_turn_snd)

lemma add_turns_length:
  "length (fst (add_turns vec e ts)) = length ts"
  by (induction ts arbitrary: e) (auto simp add: case_prod_beta)

lemma add_turns_nth:
  assumes "goal_set e" and "0 < check_interval e" and "i < length ts"
  shows "if (int (length (conversation_history e)) + int i + 1) mod check_interval e = 0
         then \<exists>m. fst (add_turns vec e ts) ! i = Inr (Some m)
                \<and> DriftMetrics.turn_number m = int (length (conversation_history e)) + int i + 1
         else fst (add_turns vec e ts) ! i = Inr None"
  using assms
proof (induction ts arbitrary: e i)
  case Nil
  then show ?case by simp
next
  case (Cons t ts)
  obtain now u a where t: "t = (now, u, a)" by (cases t)
  let ?e1 = "snd (add_turn vec now u a e)"
  show ?case
  proof (cases i)
    case 0
    show ?thesis
    proof (cases "checks_now e")
      case True
      then show ?thesis
        using add_turn_scheduled [OF Cons.prems(1) True, of vec now u a] Cons.prems(2)
        by (auto simp add: 0 t case_prod_beta checks_now_def)
    next
      case False
      then show ?thesis
        using add_turn_unscheduled [OF _ False, of vec now u a] Cons.prems(2)
        by (auto simp add: 0 t case_prod_beta checks_now_def)
    qed
  next
    case (Suc j)
    have "goal_set ?e1" "0 < check_interval ?e1" "j < length ts"
      using Cons.prems Suc by (simp_all add: add_turn_config)
    note IH = Cons.IH [OF this, unfolded add_turn_config]
    have n: "int (Suc (length (conversation_history e))) + int j + 1
               = int (length (conversation_history e)) + int i + 1"
      by (simp add: Suc)
    have r: "fst (add_turns vec e (t # ts)) ! i = fst (add_turns vec ?e1 ts) ! j"
      by (simp add: Suc t case_prod_beta)
    show ?thesis using IH unfolding n r .
  qed
qed

lemma checks_now_nat:
  assumes "0 < check_interval e"
  shows "checks_now e \<longleftrightarrow> Suc (length (conversation_history e)) mod nat (check_interval e) = 0"
proof -
  have "int (Suc (length (conversation_history e)) mod nat (check_interval e))
          = int (Suc (length (conversation_history e))) mod check_interval e"
    using assms by (simp add: zmod_int)
  then show ?thesis using assms by (auto simp add: checks_now_def add.commute)
qed

lemma add_turns_count:
  assumes "goal_set e" and "0 < check_interval e"
  shows "length (filter is_verdict (fst (add_turns vec e ts)))
           = (length (conversation_history e) + length ts) div nat (check_interval e)
             - length (conversation_history e) div nat (check_interval e)
       \<and> length (drift_history (snd (add_turns vec e ts)))
           = length (drift_history e) + length (filter is_verdict (fst (add_turns vec e ts)))"
  using assms
proof (induction ts arbitrary: e)
  case Nil
  then show ?case by simp
next
  case (Cons t ts)
  obtain now u a where t: "t = (now, u, a)" by (cases t)
  let ?e1 = "snd (add_turn vec now u a e)"
  let ?c = "nat (check_interval e)"
  let ?k = "length (conversation_history e)"
  have e1: "goal_set ?e1" "0 < check_interval ?e1"
    using Cons.prems by (simp_all add: add_turn_config)
  note IH = Cons.IH [OF e1, unfolded add_turn_config]
  have mono: "Suc ?k div ?c \<le> (Suc ?k + length ts) div ?c"
    by (rule div_le_mono) simp
  show ?case
  proof (cases "checks_now e")
    case True
    then have m: "Suc ?k mod ?c = 0" using checks_now_nat [OF Cons.prems(2)] by simp
    obtain v where v: "fst (add_turn vec now u a e) = Inr (Some v)"
      "drift_history ?e1 = drift_history e @ [v]"
      using add_turn_scheduled [OF Cons.prems(1) True, of vec now u a] by blast
    have d: "Suc ?k div ?c = Suc (?k div ?c)" using m by (simp add: div_Suc)
    have f: "length (filter is_verdict (fst (add_turns vec e (t # ts))))
               = Suc (length (filter is_verdict (fst (add_turns vec ?e1 ts))))"
      using v(1) by (simp add: t case_prod_beta)
    have h: "snd (add_turns vec e (t # ts)) = snd (add_turns vec ?e1 ts)"
      by (simp add: t case_prod_beta)
    have l: "length (drift_history ?e1) = Suc (length (drift_history e))"
      using v(2) by simp
    have s: "?k + length (t # ts) = Suc ?k + length ts" by simp
    show ?thesis
      unfolding f h s using IH mono d l by linarith
  next
    case False
    then have m: "Suc ?k mod ?c \<noteq> 0" using checks_now_nat [OF Cons.prems(2)] by simp
    have v: "fst (add_turn vec now u a e) = Inr None" "drift_history ?e1 = drift_history e"
      using add_turn_unscheduled [OF _ False, of vec now u a] Cons.prems(2) by simp_all
    have d: "Suc ?k div ?c = ?k div ?c" using m by (simp add: div_Suc)
    have f: "length (filter is_verdict (fst (add_turns vec e (t # ts))))
               = length (filter is_verdict (fst (add_turns vec ?e1 ts)))"
      using v(1) by (simp add: t case_prod_beta)
    have h: "snd (add_turns vec e (t # ts)) = snd (add_turns vec ?e1 ts)"
      by (simp add: t case_prod_beta)
    have l: "length (drift_history ?e1) = length (drift_history e)"
      using v(2) by simp
    have s: "?k + length (t # ts) = Suc ?k + length ts" by simp
    show ?thesis
      unfolding f h s using IH mono d l by linarith
  qed
qed

text \<open>
  Claim C4. On an engine whose goal is set (to a non-empty text) and whose interval is
  positive, a run of \<open>add_turn\<close> calls returns one result per call; the call number \<open>i\<close>
  of the run assigns the turn number \<open>length history + i + 1\<close>, and returns a verdict,
  with that turn number, exactly when the number is a multiple of the interval, and
  \<^verbatim>\<open>None\<close> otherwise. A run of \<open>check_interval * k\<close> calls returns exactly \<open>k\<close> verdicts. The
  drift history grows by the returned verdicts and by nothing else, and \<open>set_north_star\<close>
  does not touch it.
\<close>

theorem add_turn_verdict_schedule:
  assumes "goal_set e" and "0 < check_interval e"
  shows "length (fst (add_turns vec e ts)) = length ts
    \<and> (\<forall>i<length ts.
          if (int (length (conversation_history e)) + int i + 1) mod check_interval e = 0
          then \<exists>m. fst (add_turns vec e ts) ! i = Inr (Some m)
                 \<and> DriftMetrics.turn_number m = int (length (conversation_history e)) + int i + 1
          else fst (add_turns vec e ts) ! i = Inr None)
    \<and> (int (length ts) = check_interval e * k \<longrightarrow>
          int (length (filter is_verdict (fst (add_turns vec e ts)))) = k)
    \<and> length (drift_history (snd (add_turns vec e ts)))
        = length (drift_history e) + length (filter is_verdict (fst (add_turns vec e ts)))
    \<and> drift_history (set_north_star g e) = drift_history e"
proof -
  have count: "int (length ts) = check_interval e * k \<longrightarrow>
          int (length (filter is_verdict (fst (add_turns vec e ts)))) = k"
  proof
    assume n: "int (length ts) = check_interval e * k"
    let ?c = "nat (check_interval e)"
    have c: "0 < ?c" "int ?c = check_interval e" using assms(2) by simp_all
    have "0 \<le> k" using n assms(2) by (metis of_nat_0_le_iff zero_le_mult_iff not_less)
    then have "int (length ts) = int (?c * nat k)" using n c by simp
    then have l: "length ts = ?c * nat k" by (simp only: of_nat_eq_iff)
    have "(length (conversation_history e) + ?c * nat k) div ?c
            = length (conversation_history e) div ?c + nat k"
      using c(1) by simp
    then have "length (filter is_verdict (fst (add_turns vec e ts))) = nat k"
      using add_turns_count [OF assms, of vec ts] l by simp
    then show "int (length (filter is_verdict (fst (add_turns vec e ts)))) = k"
      using \<open>0 \<le> k\<close> by simp
  qed
  show ?thesis
    using add_turns_length [of vec e ts] add_turns_nth [OF assms, of _ ts vec] count
      add_turns_count [OF assms, of vec ts]
    by (simp add: set_north_star_def)
qed


theorem add_turn_verdict_schedule_witness:
  "goal_set (set_north_star ''the'' standalone_engine)
   \<and> 0 < check_interval (set_north_star ''the'' standalone_engine)
   \<and> int (length six_turns) = check_interval (set_north_star ''the'' standalone_engine) * 2
   \<and> int (length (filter is_verdict
        (fst (add_turns vectorizer_fails (set_north_star ''the'' standalone_engine) six_turns)))) = 2
   \<and> fst (add_turns vectorizer_fails (set_north_star ''the'' standalone_engine) six_turns) ! 0
        = Inr None
   \<and> is_verdict
        (fst (add_turns vectorizer_fails (set_north_star ''the'' standalone_engine) six_turns) ! 2)"
proof -
  let ?e = "set_north_star ''the'' standalone_engine"
  have h1: "goal_set ?e" and h2: "0 < check_interval ?e"
    and n: "int (length six_turns) = check_interval ?e * 2"
    and k: "conversation_history ?e = []" and c: "check_interval ?e = 3"
    by (simp_all add: eval_defs)
  note inst = add_turn_verdict_schedule [OF h1 h2, of vectorizer_fails six_turns 2 "''the''"]
  have count: "int (length (filter is_verdict (fst (add_turns vectorizer_fails ?e six_turns)))) = 2"
    using inst n by blast
  have nth: "\<forall>i<length six_turns.
          if (int (length (conversation_history ?e)) + int i + 1) mod check_interval ?e = 0
          then \<exists>m. fst (add_turns vectorizer_fails ?e six_turns) ! i = Inr (Some m)
                 \<and> DriftMetrics.turn_number m = int (length (conversation_history ?e)) + int i + 1
          else fst (add_turns vectorizer_fails ?e six_turns) ! i = Inr None"
    using inst by blast
  have l: "length six_turns = 6" by (simp add: six_turns_def)
  have r0: "fst (add_turns vectorizer_fails ?e six_turns) ! 0 = Inr None"
    using nth [rule_format, of 0] by (simp add: k c l)
  have r2: "is_verdict (fst (add_turns vectorizer_fails ?e six_turns) ! 2)"
    using nth [rule_format, of 2] by (auto simp add: k c l)
  show ?thesis using h1 h2 n count r0 r2 by blast
qed


end
